theory Spec2Isabelle
  imports Main
begin

section \<open>The process environment\<close>

text \<open>
  The C library keeps the environment of a process in \<^verbatim>\<open>char **environ\<close>: an array of
  strings of the shape \<^verbatim>\<open>NAME=value\<close>. Order and duplicates are visible to the lookup
  (the first matching entry wins), so the array is a list of strings here. A C string has
  no embedded NUL and the terminator is not part of the list.
\<close>

type_synonym environ = "string list"

text \<open>
  Modelled from the spec: the C library, whose \<^verbatim>\<open>unsetenv\<close> the source calls, is not part
  of the repository. This is the test both \<^verbatim>\<open>getenv\<close> and \<^verbatim>\<open>unsetenv\<close> apply to one entry \<^verbatim>\<open>ep\<close> for a name of
  length \<^verbatim>\<open>len\<close>: \<^verbatim>\<open>strncmp(ep, name, len) == 0 && ep[len] == '='\<close>. When the entry has
  exactly \<^verbatim>\<open>len\<close> characters, \<^verbatim>\<open>ep[len]\<close> is the terminator, which is not \<^verbatim>\<open>'='\<close>.
\<close>

definition entry_matches :: "string \<Rightarrow> string \<Rightarrow> bool" where
  "entry_matches name ep =
     (take (length name) ep = name \<and> length name < length ep \<and> ep ! length name = CHR ''='')"

text \<open>
  Modelled from the spec: the lookup primitive \<^verbatim>\<open>getenv\<close> of the C library ("querying that
  variable from within the same process"), which the repository uses but does not contain.
  It returns the value of the first entry that matches, or reports "not present".
\<close>

fun getenv :: "string \<Rightarrow> environ \<Rightarrow> string option" where
  "getenv name [] = None"
| "getenv name (ep # eps) =
     (if entry_matches name ep then Some (drop (Suc (length name)) ep) else getenv name eps)"

text \<open>
  Modelled from the spec: the loop of the C library's \<^verbatim>\<open>unsetenv\<close> ("delete the entry for
  that fixed name"), which is not part of the repository. Walk the array; an entry that matches is removed by moving the
  later ones down, and the walk goes on from the same place, so every entry of that name
  goes, not only the first.
\<close>

fun remove_entries :: "string \<Rightarrow> environ \<Rightarrow> environ" where
  "remove_entries name [] = []"
| "remove_entries name (ep # eps) =
     (if entry_matches name ep then remove_entries name eps
      else ep # remove_entries name eps)"

text \<open>
  Modelled from the spec: the removal primitive \<^verbatim>\<open>unsetenv\<close> of the C library, which the
  source calls and the repository does not contain ("delete the entry for that fixed name
  from the process environment mapping if present; if absent, this is a no-op"; "the
  underlying removal primitive may fail (e.g., invalid name)"). An empty name or a name
  with \<^verbatim>\<open>'='\<close> in it is refused with the result \<open>-1\<close> and the environment is left as it
  was; any other name gives \<open>0\<close> and the environment without the entries of that name.
  The result is the pair of the C return value and the environment afterwards.
\<close>

definition unsetenv :: "string \<Rightarrow> environ \<Rightarrow> int \<times> environ" where
  "unsetenv name env =
     (if name = [] \<or> CHR ''='' \<in> set name then (- 1, env)
      else (0, remove_entries name env))"

text \<open>A name the removal primitive accepts.\<close>

definition valid_name :: "string \<Rightarrow> bool" where
  "valid_name name = (name \<noteq> [] \<and> CHR ''='' \<notin> set name)"

section \<open>The initializer\<close>

text \<open>
  \<^verbatim>\<open>__attribute__((constructor)) static void unset_preload(void) { unsetenv("LD_PRELOAD"); }\<close>

  The function takes no argument and returns nothing; it reads and writes the environment
  of the process, which is passed in and out here. The return value of \<^verbatim>\<open>unsetenv\<close> is
  not looked at.
\<close>

definition unset_preload :: "environ \<Rightarrow> unit \<times> environ" where
  "unset_preload env = (case unsetenv ''LD_PRELOAD'' env of (rc, env') \<Rightarrow> ((), env'))"

text \<open>
  The same body over an arbitrary removal primitive, to speak of what the initializer does
  with a result of the primitive that the C library's own never gives for this name.
\<close>

definition unset_preload_with ::
  "(string \<Rightarrow> environ \<Rightarrow> int \<times> environ) \<Rightarrow> environ \<Rightarrow> unit \<times> environ" where
  "unset_preload_with prim env = (case prim ''LD_PRELOAD'' env of (rc, env') \<Rightarrow> ((), env'))"

text \<open>
  The header comment of the source gives the usage
  \<^verbatim>\<open>LD_PRELOAD="/usr/lib/gl4es/libGL.so.1 /usr/lib/unset_preload.so" cmd\<close>:
  the variable that lists the modules to preload, this one among them.
\<close>

definition preload_list_variable :: string where
  "preload_list_variable = ''LD_PRELOAD''"

section \<open>The environment as a mapping\<close>

text \<open>
  The spec speaks of the environment as "a mutable mapping from variable name (text key)
  to variable value (text)". This is the mapping an array stands for: an entry binds
  the name before its first \<^verbatim>\<open>'='\<close> to the text after it; an entry without \<^verbatim>\<open>'='\<close>
  binds nothing; of two entries of one name the earlier one is the binding.
\<close>

definition entry_name :: "string \<Rightarrow> string" where
  "entry_name ep = takeWhile (\<lambda>c. c \<noteq> CHR ''='') ep"

definition entry_value :: "string \<Rightarrow> string" where
  "entry_value ep = drop 1 (dropWhile (\<lambda>c. c \<noteq> CHR ''='') ep)"

fun env_map :: "environ \<Rightarrow> (string \<rightharpoonup> string)" where
  "env_map [] = Map.empty"
| "env_map (ep # eps) =
     (if CHR ''='' \<in> set ep then (env_map eps)(entry_name ep \<mapsto> entry_value ep)
      else env_map eps)"

text \<open>The removal as the spec words it: delete the key if present, else do nothing.\<close>

definition spec_remove :: "string \<Rightarrow> (string \<rightharpoonup> string) \<Rightarrow> (string \<rightharpoonup> string)" where
  "spec_remove name m = (if name \<in> dom m then m(name := None) else m)"

section \<open>Child processes and the rest of the process's life\<close>

text \<open>
  Modelled from the spec: process creation is the operating system's and not part of the
  repository ("child environments are point-in-time copies taken at spawn time").
  \<^verbatim>\<open>system()\<close> and \<^verbatim>\<open>popen()\<close>, which the source's header comment names, fork and execute
  a shell with the \<^verbatim>\<open>environ\<close> of the caller: the child starts with a copy of the
  parent's environment as it is at the call.
\<close>

definition child_environ :: "environ \<Rightarrow> environ" where
  "child_environ env = env"

text \<open>
  Modelled from the spec: the \<^verbatim>\<open>env\<close> utility of the spec's scenario ("spawning \<^verbatim>\<open>env\<close> as
  a child and capturing its output"), which is not part of the repository. It prints the
  entries of its environment, one on a line.
\<close>

definition env_output :: "environ \<Rightarrow> string list" where
  "env_output env = env"

text \<open>
  Modelled from the spec: the host program is not part of the repository ("unless some
  other code in the same process re-adds it afterward"). A step of the host program from
  environment \<open>e\<close> to \<open>e'\<close> re-adds the variable when it was absent before the step and
  is present after it.
\<close>

definition readds_target :: "environ \<Rightarrow> environ \<Rightarrow> bool" where
  "readds_target e e' = (getenv ''LD_PRELOAD'' e = None \<and> getenv ''LD_PRELOAD'' e' \<noteq> None)"

text \<open>
  Modelled from the spec: the life of a process started with environment \<open>e0\<close>, from the
  moment the initializer has run ("this component performs exactly one mutation, once,
  early in that lifetime, and never touches it again"): the first step is the one run of the initializer, every later step is a step
  of other code of the process, arbitrary except that it does not re-add the variable.
  \<open>run e0 ls e\<close>: the steps \<open>ls\<close> (oldest first) lead to the environment \<open>e\<close>.
\<close>

datatype step = Init | Host

inductive run :: "environ \<Rightarrow> step list \<Rightarrow> environ \<Rightarrow> bool" for e0 :: environ where
  init: "run e0 [Init] (snd (unset_preload e0))"
| host: "run e0 ls e \<Longrightarrow> \<not> readds_target e e' \<Longrightarrow> run e0 (ls @ [Host]) e'"

section \<open>Properties of the primitives\<close>

lemma entry_matches_iff: "entry_matches name ep \<longleftrightarrow> (\<exists>v. ep = name @ CHR ''='' # v)"
proof
  assume m: "entry_matches name ep"
  then have "ep = take (length name) ep @ drop (length name) ep" by simp
  moreover from m obtain c v where "drop (length name) ep = c # v"
    by (cases "drop (length name) ep") (auto simp: entry_matches_def)
  moreover from this m have "c = CHR ''=''"
    by (metis entry_matches_def hd_drop_conv_nth list.sel(1))
  ultimately show "\<exists>v. ep = name @ CHR ''='' # v"
    using m by (metis entry_matches_def)
next
  assume "\<exists>v. ep = name @ CHR ''='' # v"
  then show "entry_matches name ep"
    by (auto simp: entry_matches_def)
qed

lemma remove_entries_filter:
  "remove_entries name env = filter (\<lambda>ep. \<not> entry_matches name ep) env"
  by (induction env) simp_all

lemma getenv_None_iff: "getenv name env = None \<longleftrightarrow> (\<forall>ep \<in> set env. \<not> entry_matches name ep)"
  by (induction env) simp_all

lemma getenv_remove_entries_same: "getenv name (remove_entries name env) = None"
  by (induction env) simp_all

lemma remove_entries_absent: "getenv name env = None \<Longrightarrow> remove_entries name env = env"
  by (induction env) (simp_all split: if_splits)

lemma remove_entries_idem:
  "remove_entries name (remove_entries name env) = remove_entries name env"
  by (simp add: remove_entries_absent getenv_remove_entries_same)


lemma entry_name_value:
  "CHR ''='' \<notin> set name \<Longrightarrow> entry_name (name @ CHR ''='' # v) = name \<and> entry_value (name @ CHR ''='' # v) = v"
  by (induction name) (auto simp: entry_name_def entry_value_def)

lemma entry_split:
  "CHR ''='' \<in> set ep \<Longrightarrow> ep = entry_name ep @ CHR ''='' # entry_value ep"
proof -
  assume a: "CHR ''='' \<in> set ep"
  have "dropWhile (\<lambda>c. c \<noteq> CHR ''='') ep \<noteq> []" using a by (simp add: dropWhile_eq_Nil_conv) 
  then obtain c v where d: "dropWhile (\<lambda>c. c \<noteq> CHR ''='') ep = c # v"
    by (cases "dropWhile (\<lambda>c. c \<noteq> CHR ''='') ep") auto
  then have "c = CHR ''=''" using hd_dropWhile[of "\<lambda>c. c \<noteq> CHR ''=''" ep] by auto
  with d have "dropWhile (\<lambda>c. c \<noteq> CHR ''='') ep = CHR ''='' # entry_value ep"
    by (simp add: entry_value_def)
  then show ?thesis
    by (metis entry_name_def takeWhile_dropWhile_id)
qed

lemma entry_name_no_eq: "CHR ''='' \<notin> set (entry_name ep)"
  unfolding entry_name_def by (auto dest: set_takeWhileD)

lemma entry_matches_name:
  assumes "CHR ''='' \<notin> set name"
  shows "entry_matches name ep \<longleftrightarrow> CHR ''='' \<in> set ep \<and> entry_name ep = name"
proof
  assume "entry_matches name ep"
  then obtain v where "ep = name @ CHR ''='' # v" by (auto simp: entry_matches_iff)
  then show "CHR ''='' \<in> set ep \<and> entry_name ep = name"
    using assms by (simp add: entry_name_value)
next
  assume "CHR ''='' \<in> set ep \<and> entry_name ep = name"
  then show "entry_matches name ep"
    using entry_split[of ep] by (auto simp: entry_matches_iff)
qed

lemma entry_matches_value:
  assumes "CHR ''='' \<notin> set name" "entry_matches name ep"
  shows "drop (Suc (length name)) ep = entry_value ep"
proof -
  from assms(2) obtain v where "ep = name @ CHR ''='' # v" by (auto simp: entry_matches_iff)
  then show ?thesis using assms(1) by (simp add: entry_name_value)
qed

lemma getenv_env_map: "CHR ''='' \<notin> set name \<Longrightarrow> getenv name env = env_map env name"
  by (induction env) (auto simp: entry_matches_name entry_matches_value)

lemma env_map_remove_entries:
  "CHR ''='' \<notin> set name \<Longrightarrow> env_map (remove_entries name env) = (env_map env)(name := None)"
  by (induction env) (auto simp: entry_matches_name fun_upd_twist)

lemma spec_remove_eq: "spec_remove name m = m(name := None)"
  by (auto simp: spec_remove_def fun_eq_iff domIff)

section \<open>The initializer on the environment\<close>

lemma unset_preload_snd: "snd (unset_preload env) = remove_entries ''LD_PRELOAD'' env"
  by (simp add: unset_preload_def unsetenv_def)

lemma target_no_eq: "CHR ''='' \<notin> set ''LD_PRELOAD''"
  by simp

text \<open>
  C1 (effectiveness). For every environment, so also for one that holds the variable
  \<^verbatim>\<open>LD_PRELOAD\<close> with a non-empty value (once or several times), after the initializer
  has run the lookup of \<^verbatim>\<open>LD_PRELOAD\<close> in the same process says "not present", and the
  environment seen as a mapping has no binding for it.
\<close>

theorem unset_preload_effective:
  "getenv ''LD_PRELOAD'' (snd (unset_preload env)) = None \<and>
   env_map (snd (unset_preload env)) ''LD_PRELOAD'' = None"
proof -
  have g: "getenv ''LD_PRELOAD'' (snd (unset_preload env)) = None"
    by (simp only: unset_preload_snd getenv_remove_entries_same)
  moreover have "env_map (snd (unset_preload env)) ''LD_PRELOAD'' = None"
    using g getenv_env_map [OF target_no_eq] by simp
  ultimately show ?thesis by simp
qed

text \<open>
  C2 (non-inheritance). For every environment of the parent, so also for one in which
  \<^verbatim>\<open>LD_PRELOAD\<close> is set before the module loads, the copy of the environment a child
  spawned after the initializer gets has no \<^verbatim>\<open>LD_PRELOAD\<close>: the lookup there says "not
  present" and no line of what \<^verbatim>\<open>env\<close> prints in the child starts with \<^verbatim>\<open>LD_PRELOAD=\<close>.
\<close>

theorem child_does_not_inherit:
  "getenv ''LD_PRELOAD'' (child_environ (snd (unset_preload env))) = None \<and>
   filter (entry_matches ''LD_PRELOAD'') (env_output (child_environ (snd (unset_preload env)))) = []"
proof -
  have "getenv ''LD_PRELOAD'' (remove_entries ''LD_PRELOAD'' env) = None"
    by (rule getenv_remove_entries_same)
  moreover have "filter (entry_matches ''LD_PRELOAD'') (remove_entries ''LD_PRELOAD'' env) = []"
    by (simp only: remove_entries_filter filter_filter) simp
  ultimately show ?thesis
    by (simp only: child_environ_def env_output_def unset_preload_snd)
qed

text \<open>
  A string with \<^verbatim>\<open>'='\<close> in it is not the name of a variable, and the lookup with such a
  string reads part of the value as if it were part of the name: the entry
  \<^verbatim>\<open>LD_PRELOAD=x=y\<close> answers the query \<^verbatim>\<open>LD_PRELOAD=x\<close> with \<^verbatim>\<open>y\<close> before the initializer
  runs and not after. The frame property below is therefore about names: keys of the
  mapping, and for the lookup, strings without \<^verbatim>\<open>'='\<close>.
\<close>

lemma getenv_query_with_eq:
  "getenv ''LD_PRELOAD=x'' [''LD_PRELOAD=x=y''] = Some ''y'' \<and>
   getenv ''LD_PRELOAD=x'' (snd (unset_preload [''LD_PRELOAD=x=y''])) = None"
  by (simp add: unset_preload_def unsetenv_def entry_matches_def)

text \<open>
  C3 (non-interference). For every environment and every variable name other than
  \<^verbatim>\<open>LD_PRELOAD\<close>, the binding of that name (whether it is present, and its value) is the
  same after the initializer as before: in the mapping, and for the lookup of a name.
  The entries of the environment that are not entries of \<^verbatim>\<open>LD_PRELOAD\<close> are all kept,
  as they are and in their order.
\<close>

theorem unset_preload_frame:
  assumes "name \<noteq> ''LD_PRELOAD''"
  shows "env_map (snd (unset_preload env)) name = env_map env name \<and>
         (CHR ''='' \<notin> set name \<longrightarrow>
            getenv name (snd (unset_preload env)) = getenv name env) \<and>
         snd (unset_preload env) = filter (\<lambda>ep. \<not> entry_matches ''LD_PRELOAD'' ep) env"
proof -
  have m: "env_map (snd (unset_preload env)) name = env_map env name"
    using assms by (simp only: unset_preload_snd env_map_remove_entries [OF target_no_eq]) simp
  then have "CHR ''='' \<notin> set name \<longrightarrow> getenv name (snd (unset_preload env)) = getenv name env"
    by (simp add: getenv_env_map)
  moreover have "snd (unset_preload env) = filter (\<lambda>ep. \<not> entry_matches ''LD_PRELOAD'' ep) env"
    by (simp only: unset_preload_snd remove_entries_filter)
  ultimately show ?thesis using m by blast
qed

theorem unset_preload_frame_witness:
  "''OTHER'' \<noteq> ''LD_PRELOAD'' \<and> CHR ''='' \<notin> set ''OTHER'' \<and>
   env_map [''LD_PRELOAD=/path/a.so /path/unset.so'', ''OTHER=x''] ''OTHER'' = Some ''x'' \<and>
   env_map (snd (unset_preload [''LD_PRELOAD=/path/a.so /path/unset.so'', ''OTHER=x''])) ''OTHER''
     = Some ''x'' \<and>
   getenv ''OTHER'' (snd (unset_preload [''LD_PRELOAD=/path/a.so /path/unset.so'', ''OTHER=x'']))
     = Some ''x''"
proof -
  let ?E = "[''LD_PRELOAD=/path/a.so /path/unset.so'', ''OTHER=x'']"
  have n: "''OTHER'' \<noteq> ''LD_PRELOAD''" by simp
  have e: "CHR ''='' \<notin> set ''OTHER''" by simp
  have b: "env_map ?E ''OTHER'' = Some ''x''"
    by (simp add: entry_name_def entry_value_def)
  have g: "getenv ''OTHER'' ?E = Some ''x''"
    by (simp add: entry_matches_def)
  note frame = unset_preload_frame [OF n, of ?E]
  from frame [THEN conjunct1] b
  have m': "env_map (snd (unset_preload ?E)) ''OTHER'' = Some ''x''"
    by (simp only:)
  from frame [THEN conjunct2, THEN conjunct1, rule_format, OF e] g
  have g': "getenv ''OTHER'' (snd (unset_preload ?E)) = Some ''x''"
    by (simp only:)
  from n e b m' g' show ?thesis
    by (simp only: simp_thms)
qed

text \<open>
  C4 (idempotence on absence). When \<^verbatim>\<open>LD_PRELOAD\<close> is absent, the initializer leaves the
  whole environment as it is and the removal does not fail (it returns 0); and for every
  environment, running the initializer a second time changes nothing more.
\<close>

theorem unset_preload_absent_noop:
  "(getenv ''LD_PRELOAD'' env = None \<longrightarrow>
      unset_preload env = ((), env) \<and> fst (unsetenv ''LD_PRELOAD'' env) = 0 \<and>
      env_map (snd (unset_preload env)) = env_map env) \<and>
   unset_preload (snd (unset_preload env)) = unset_preload env"
proof -
  have u: "unset_preload e = ((), remove_entries ''LD_PRELOAD'' e)" for e
    by (simp add: unset_preload_def unsetenv_def)
  have "fst (unsetenv ''LD_PRELOAD'' env) = 0"
    by (simp add: unsetenv_def)
  then show ?thesis
    by (simp add: u remove_entries_absent remove_entries_idem)
qed

theorem unset_preload_absent_noop_witness:
  "getenv ''LD_PRELOAD'' [''OTHER=x''] = None \<and>
   unset_preload [''OTHER=x''] = ((), [''OTHER=x'']) \<and>
   fst (unsetenv ''LD_PRELOAD'' [''OTHER=x'']) = 0"
proof -
  have a: "getenv ''LD_PRELOAD'' [''OTHER=x''] = None"
    by (simp add: entry_matches_def)
  show ?thesis
    using unset_preload_absent_noop [of "[''OTHER=x'']"] a by simp
qed

text \<open>
  C5 (scenario). From the environment \<^verbatim>\<open>LD_PRELOAD=/path/a.so /path/unset.so\<close>,
  \<^verbatim>\<open>OTHER=x\<close> the initializer leaves exactly \<^verbatim>\<open>OTHER=x\<close>, as a mapping \<open>{OTHER: x}\<close>;
  \<^verbatim>\<open>env\<close> run in a child prints the line \<^verbatim>\<open>OTHER=x\<close> and no line of \<^verbatim>\<open>LD_PRELOAD=\<close>.
  The order of the two entries makes no difference.
\<close>

theorem scenario:
  "snd (unset_preload [''LD_PRELOAD=/path/a.so /path/unset.so'', ''OTHER=x'']) = [''OTHER=x''] \<and>
   env_map (snd (unset_preload [''LD_PRELOAD=/path/a.so /path/unset.so'', ''OTHER=x'']))
     = [''OTHER'' \<mapsto> ''x''] \<and>
   env_output (child_environ
     (snd (unset_preload [''LD_PRELOAD=/path/a.so /path/unset.so'', ''OTHER=x''])))
     = [''OTHER=x''] \<and>
   filter (entry_matches ''LD_PRELOAD'') (env_output (child_environ
     (snd (unset_preload [''LD_PRELOAD=/path/a.so /path/unset.so'', ''OTHER=x''])))) = [] \<and>
   snd (unset_preload [''OTHER=x'', ''LD_PRELOAD=/path/a.so /path/unset.so'']) = [''OTHER=x'']"
proof -
  have a: "snd (unset_preload [''LD_PRELOAD=/path/a.so /path/unset.so'', ''OTHER=x''])
      = [''OTHER=x'']"
    by (simp add: unset_preload_def unsetenv_def entry_matches_def)
  have b: "snd (unset_preload [''OTHER=x'', ''LD_PRELOAD=/path/a.so /path/unset.so''])
      = [''OTHER=x'']"
    by (simp add: unset_preload_def unsetenv_def entry_matches_def)
  have c: "env_map [''OTHER=x''] = [''OTHER'' \<mapsto> ''x'']"
    by (simp add: entry_name_def entry_value_def)
  have d: "filter (entry_matches ''LD_PRELOAD'') [''OTHER=x''] = []"
    by (simp add: entry_matches_def)
  show ?thesis
    by (simp only: a b c d child_environ_def env_output_def simp_thms)
qed

section \<open>The target, errors and the life of the process\<close>

text \<open>
  On the mapping the initializer is the removal of the one key \<^verbatim>\<open>LD_PRELOAD\<close>, whatever
  the array looks like (order, repeated names, entries without \<^verbatim>\<open>'='\<close>).
\<close>

lemma env_map_unset_preload:
  "env_map (snd (unset_preload env)) = (env_map env)(''LD_PRELOAD'' := None)"
  by (simp only: unset_preload_snd env_map_remove_entries [OF target_no_eq])

text \<open>
  C6 (fixed, self-referential target). The initializer has no parameter; the name it
  removes is the literal \<^verbatim>\<open>LD_PRELOAD\<close>, the variable that lists the modules to preload
  and so the one that loaded this module. For every environment the run is the removal
  of that name, on the mapping it is the spec's deletion of that key, and no other key
  has its binding changed: nothing in the environment can redirect the removal.
\<close>

theorem unset_preload_target_fixed:
  "preload_list_variable = ''LD_PRELOAD'' \<and>
   snd (unset_preload env) = remove_entries preload_list_variable env \<and>
   env_map (snd (unset_preload env)) = spec_remove preload_list_variable (env_map env) \<and>
   {name. env_map (snd (unset_preload env)) name \<noteq> env_map env name}
     \<subseteq> {preload_list_variable}"
proof -
  have a: "preload_list_variable = ''LD_PRELOAD''"
    by (simp only: preload_list_variable_def)
  have b: "snd (unset_preload env) = remove_entries ''LD_PRELOAD'' env"
    by (rule unset_preload_snd)
  have c: "env_map (snd (unset_preload env)) = spec_remove ''LD_PRELOAD'' (env_map env)"
    by (simp only: env_map_unset_preload spec_remove_eq)
  have d: "{name. env_map (snd (unset_preload env)) name \<noteq> env_map env name}
      \<subseteq> {''LD_PRELOAD''}"
    by (auto simp: env_map_unset_preload)
  from b c d show ?thesis
    unfolding a by blast
qed

text \<open>
  C7 (error opacity). The initializer returns nothing and hands on the environment the
  removal primitive left, whatever the primitive returned: its result is the same for a
  primitive that reports success and one that reports failure. A removal the C library
  refuses leaves the environment as it was, and so does the initializer over a primitive
  that fails that way.
\<close>

theorem unset_preload_error_opaque:
  "unset_preload env = unset_preload_with unsetenv env \<and>
   unset_preload_with prim env = ((), snd (prim ''LD_PRELOAD'' env)) \<and>
   (fst (unsetenv name env) \<noteq> 0 \<longrightarrow> unsetenv name env = (- 1, env)) \<and>
   (snd (prim ''LD_PRELOAD'' env) = env \<longrightarrow> unset_preload_with prim env = ((), env))"
proof -
  have a: "unset_preload env = unset_preload_with unsetenv env"
    by (simp add: unset_preload_def unset_preload_with_def)
  have b: "unset_preload_with prim env = ((), snd (prim ''LD_PRELOAD'' env))"
    by (simp add: unset_preload_with_def split: prod.split)
  have c: "fst (unsetenv name env) \<noteq> 0 \<longrightarrow> unsetenv name env = (- 1, env)"
    by (simp add: unsetenv_def)
  from a b c show ?thesis by simp
qed

theorem unset_preload_error_opaque_witness:
  "fst (unsetenv ''A=B'' [''A=B=c'']) \<noteq> 0 \<and>
   unsetenv ''A=B'' [''A=B=c''] = (- 1, [''A=B=c'']) \<and>
   snd ((\<lambda>name env. (- 1, env)) ''LD_PRELOAD'' [''A=B=c'']) = [''A=B=c''] \<and>
   unset_preload_with (\<lambda>name env. (- 1, env)) [''A=B=c''] = ((), [''A=B=c''])"
proof -
  have f: "fst (unsetenv ''A=B'' [''A=B=c'']) \<noteq> 0"
    by (simp add: unsetenv_def)
  have s: "snd ((\<lambda>name env. (- 1 :: int, env)) ''LD_PRELOAD'' [''A=B=c'']) = [''A=B=c'']"
    by simp
  note th = unset_preload_error_opaque
    [of "[''A=B=c'']" "\<lambda>name env. (- 1, env)" "''A=B''"]
  from th f have 1: "unsetenv ''A=B'' [''A=B=c''] = (- 1, [''A=B=c''])"
    by blast
  from th s have 2: "unset_preload_with (\<lambda>name env. (- 1, env)) [''A=B=c''] = ((), [''A=B=c''])"
    by blast
  from f 1 2 show ?thesis by simp
qed

text \<open>
  The steps of a run are the initializer once, first, and then only steps of the host.
\<close>

lemma run_shape: "run e0 ls e \<Longrightarrow> ls = Init # replicate (length ls - 1) Host"
proof (induction rule: run.induct)
  case init
  show ?case by simp
next
  case (host ls e e')
  define n where "n = length ls - 1"
  with host.IH have ls: "ls = Init # replicate n Host"
    by simp
  then have "ls @ [Host] = Init # replicate (Suc n) Host"
    by (simp add: replicate_append_same)
  moreover from ls have "length (ls @ [Host]) - 1 = Suc n"
    by simp
  ultimately show ?case
    by (simp only:)
qed

lemma run_absent: "run e0 ls e \<Longrightarrow> getenv ''LD_PRELOAD'' e = None"
proof (induction rule: run.induct)
  case init
  show ?case by (simp only: unset_preload_snd getenv_remove_entries_same)
next
  case (host ls e e')
  then show ?case by (simp add: readds_target_def)
qed

text \<open>
  C8 (absence for the rest of the process's life). In every environment reached by a run
  that starts with the initializer and goes on with steps that do not re-add
  \<^verbatim>\<open>LD_PRELOAD\<close>, the variable is absent; and the initializer is one step of the run, the
  first, and never a later one.
\<close>

theorem absent_for_the_rest_of_the_run:
  assumes "run e0 ls e"
  shows "getenv ''LD_PRELOAD'' e = None \<and> env_map e ''LD_PRELOAD'' = None \<and>
         ls = Init # replicate (length ls - 1) Host \<and>
         length (filter (\<lambda>s. s = Init) ls) = 1"
proof -
  have g: "getenv ''LD_PRELOAD'' e = None" using assms by (rule run_absent)
  then have m: "env_map e ''LD_PRELOAD'' = None"
    using getenv_env_map [OF target_no_eq] by simp
  have s: "ls = Init # replicate (length ls - 1) Host" using assms by (rule run_shape)
  have "length (filter (\<lambda>s. s = Init) (Init # replicate n Host)) = 1" for n
    by simp
  with s have "length (filter (\<lambda>s. s = Init) ls) = 1" by metis
  with g m s show ?thesis by blast
qed

theorem absent_for_the_rest_of_the_run_witness:
  "run [''LD_PRELOAD=a'', ''OTHER=x''] [Init, Host] [''NEW=1'', ''OTHER=x''] \<and>
   getenv ''LD_PRELOAD'' [''NEW=1'', ''OTHER=x''] = None \<and>
   env_map [''NEW=1'', ''OTHER=x''] ''LD_PRELOAD'' = None"
proof -
  have i: "snd (unset_preload [''LD_PRELOAD=a'', ''OTHER=x'']) = [''OTHER=x'']"
    by (simp add: unset_preload_def unsetenv_def entry_matches_def)
  have "run [''LD_PRELOAD=a'', ''OTHER=x''] [Init]
          (snd (unset_preload [''LD_PRELOAD=a'', ''OTHER=x'']))"
    by (rule run.init)
  then have r1: "run [''LD_PRELOAD=a'', ''OTHER=x''] [Init] [''OTHER=x'']"
    by (simp only: i)
  have h: "\<not> readds_target [''OTHER=x''] [''NEW=1'', ''OTHER=x'']"
    by (simp add: readds_target_def entry_matches_def)
  have r2: "run [''LD_PRELOAD=a'', ''OTHER=x''] ([Init] @ [Host]) [''NEW=1'', ''OTHER=x'']"
    using r1 h by (rule run.host)
  then have r: "run [''LD_PRELOAD=a'', ''OTHER=x''] [Init, Host] [''NEW=1'', ''OTHER=x'']"
    by simp
  from absent_for_the_rest_of_the_run [OF r] r show ?thesis by blast
qed

text \<open>
  C9 (the failure branch is unreachable). The call the initializer makes is
  \<^verbatim>\<open>unsetenv("LD_PRELOAD")\<close>: for every environment the initializer returns the environment
  that call leaves. The name of the call is valid (not empty and without \<^verbatim>\<open>'='\<close>), and
  the removal primitive fails exactly on the names that are not valid; so the call
  returns 0, never \<open>-1\<close>, and the environment the initializer returns is the one of the
  successful removal, with the entries of \<^verbatim>\<open>LD_PRELOAD\<close> gone.
\<close>

theorem unset_preload_call_succeeds:
  "unset_preload env = ((), snd (unsetenv ''LD_PRELOAD'' env)) \<and>
   fst (unsetenv ''LD_PRELOAD'' env) = 0 \<and>
   unsetenv ''LD_PRELOAD'' env \<noteq> (- 1, env) \<and>
   unset_preload env = ((), remove_entries ''LD_PRELOAD'' env) \<and>
   valid_name ''LD_PRELOAD'' \<and>
   (fst (unsetenv name env) = 0 \<longleftrightarrow> valid_name name) \<and>
   (fst (unsetenv name env) = - 1 \<longleftrightarrow> \<not> valid_name name)"
proof -
  have call: "unset_preload env = ((), snd (unsetenv ''LD_PRELOAD'' env))"
    by (simp add: unset_preload_def split: prod.split)
  have v: "valid_name ''LD_PRELOAD''"
    by (simp add: valid_name_def)
  have rc: "fst (unsetenv n env) = (if valid_name n then 0 else - 1)" for n
    by (simp add: unsetenv_def valid_name_def)
  have ok: "valid_name n \<Longrightarrow> unsetenv n env = (0, remove_entries n env)" for n
    by (simp add: unsetenv_def valid_name_def)
  from ok [OF v] have u: "unsetenv ''LD_PRELOAD'' env = (0, remove_entries ''LD_PRELOAD'' env)" .
  from u have 1: "fst (unsetenv ''LD_PRELOAD'' env) = 0"
    by simp
  from u have 2: "unsetenv ''LD_PRELOAD'' env \<noteq> (- 1, env)"
    by simp
  from call u have 3: "unset_preload env = ((), remove_entries ''LD_PRELOAD'' env)"
    by simp
  have 4: "fst (unsetenv name env) = 0 \<longleftrightarrow> valid_name name"
    by (simp add: rc)
  have 5: "fst (unsetenv name env) = - 1 \<longleftrightarrow> \<not> valid_name name"
    by (simp add: rc)
  from call 1 2 3 v 4 5 show ?thesis
    by blast
qed

text \<open>
  C10 (determinism). The environment after the initializer is a function of the one
  before: equal environments give equal results. This also holds on the mapping: two
  arrays that stand for the same mapping are taken to arrays that stand for the same
  mapping.
\<close>

theorem unset_preload_deterministic:
  "(e1 = e2 \<longrightarrow> unset_preload e1 = unset_preload e2) \<and>
   (env_map e1 = env_map e2 \<longrightarrow>
      env_map (snd (unset_preload e1)) = env_map (snd (unset_preload e2)))"
  by (simp add: env_map_unset_preload)

theorem unset_preload_deterministic_witness:
  "env_map [''LD_PRELOAD=a'', ''OTHER=x''] = env_map [''OTHER=x'', ''LD_PRELOAD=a'', ''OTHER=y''] \<and>
   env_map (snd (unset_preload [''LD_PRELOAD=a'', ''OTHER=x'']))
     = env_map (snd (unset_preload [''OTHER=x'', ''LD_PRELOAD=a'', ''OTHER=y'']))"
proof -
  have h: "env_map [''LD_PRELOAD=a'', ''OTHER=x'']
      = env_map [''OTHER=x'', ''LD_PRELOAD=a'', ''OTHER=y'']"
    by (simp add: entry_name_def entry_value_def fun_eq_iff)
  from unset_preload_deterministic
    [of "[''LD_PRELOAD=a'', ''OTHER=x'']" "[''OTHER=x'', ''LD_PRELOAD=a'', ''OTHER=y'']"] h
  show ?thesis by blast
qed

end
